theory Spec2Isabelle
  imports Main
begin

section \<open>The authorization middleware of the user service (src/index.ts)\<close>

text \<open>
  The service guards every route with one of three asynchronous middleware functions:
  \<open>authenticate\<close>, \<open>userIsAdmin\<close> and \<open>userIsSelfOrAdmin\<close>. They read three request
  headers and one path parameter, look the caller up in the \<open>users\<close> table through
  \<open>query\<close>, and either call the next stage or answer with a status code.

  The embedding passes the state explicitly. An \<open>async\<close> function becomes a function
  from the state to the way its promise ends (\<open>Resolved\<close>, \<open>Rejected\<close>, or \<open>Pending\<close>
  when it never settles) and the new state. Everything a run does that can be seen from
  outside is appended to a trace.
\<close>

subsection \<open>Data\<close>

text \<open>
  A row of the \<open>users\<close> table. The columns are those of the \<open>User\<close> interface plus the
  \<open>accessToken\<close> column that \<open>authenticate\<close> reads; that column may be NULL, since the
  create handler only stores what the request body holds.
\<close>

record user_row =
  user_id :: int
  name :: string
  email :: string
  password :: string
  role :: string
  accessToken :: "string option"

text \<open>
  What the guards read of an Express request: the headers \<open>access-token\<close>, \<open>email\<close>
  and \<open>user-role\<close>, and \<open>req.params.id\<close>. A header or parameter that the request does
  not carry is \<open>undefined\<close> in the source and \<open>None\<close> here.
\<close>

record request =
  access_token_header :: "string option"
  email_header :: "string option"
  user_role_header :: "string option"
  params_id :: "string option"

text \<open>
  The decoded payload that \<open>jwt.verify\<close> returns: a string when the payload is not a
  JSON object, otherwise a freshly parsed object.
\<close>

datatype jwt_payload =
  PayloadString string
| PayloadObject "(string \<times> string) list"

text \<open>
  \<open>jwt.verify\<close> belongs to the jsonwebtoken library, so it is a parameter of the
  model: a function of the token and the secret that returns the payload, or \<open>None\<close>
  where the library throws (malformed token, wrong signature, expired).
\<close>

type_synonym jwt_verify = "string \<Rightarrow> string \<Rightarrow> jwt_payload option"

datatype js_error =
  Error string
| TypeError
| JsonWebTokenError
| MysqlError

datatype 'a promise =
  Resolved 'a
| Rejected js_error
| Pending

text \<open>The one statement the guards send; the bound value is \<open>req.headers.email\<close>.\<close>

datatype statement =
  SelectUsersByEmail "string option"

text \<open>
  What the persistence layer does with one call of \<open>query\<close>: the pool fails to hand
  out a connection, the statement fails, the statement is served from the table as it
  is, or it is served after other requests have left the table as given.
\<close>

datatype pool_event =
  GetConnectionFails
| QueryFails
| Served
| ServedAfter "user_row list"

datatype event =
  Queried statement
| ConsoleError js_error
| Sent nat
| NextStage
| UnhandledRejection js_error

text \<open>
  The state: the \<open>users\<close> table, what the pool will do on the coming calls of \<open>query\<close>
  (once the list is used up every call is served), and the trace so far, oldest first.
\<close>

record state =
  users :: "user_row list"
  pool :: "pool_event list"
  trace :: "event list"

type_synonym stage = "state \<Rightarrow> unit promise \<times> state"

subsection \<open>Small steps of the source\<close>

definition emit :: "event \<Rightarrow> state \<Rightarrow> state" where
  "emit ev s = s\<lparr>trace := trace s @ [ev]\<rparr>"

text \<open>\<open>console.error(err)\<close> and \<open>res.sendStatus(code)\<close>.\<close>

definition console_error :: "js_error \<Rightarrow> state \<Rightarrow> state" where
  "console_error err s = emit (ConsoleError err) s"

definition sendStatus :: "nat \<Rightarrow> state \<Rightarrow> state" where
  "sendStatus code s = emit (Sent code) s"

text \<open>
  JavaScript's \<open>!h\<close> on a header value: true for \<open>undefined\<close> and for the empty
  string.
\<close>

definition falsy :: "string option \<Rightarrow> bool" where
  "falsy h = (case h of None \<Rightarrow> True | Some v \<Rightarrow> v = [])"

text \<open>
  \<open>===\<close> on two results of \<open>jwt.verify\<close>: strings are compared by value, objects by
  identity, and two calls of \<open>jwt.verify\<close> never return the same object.
\<close>

fun strict_equal :: "jwt_payload \<Rightarrow> jwt_payload \<Rightarrow> bool" where
  "strict_equal (PayloadString a) (PayloadString b) = (a = b)"
| "strict_equal _ _ = False"

text \<open>
  \<open>SELECT * FROM users WHERE email = ?\<close>: the rows whose email is the bound value, in
  table order. An \<open>undefined\<close> value is bound as NULL and matches no row. How MySQL
  compares two strings is left to the collation of the column; here they are compared as
  they are.
\<close>

fun run_select :: "statement \<Rightarrow> user_row list \<Rightarrow> user_row list" where
  "run_select (SelectUsersByEmail None) tbl = []"
| "run_select (SelectUsersByEmail (Some e)) tbl = filter (\<lambda>r. email r = e) tbl"

subsection \<open>query\<close>

text \<open>
  \<open>query\<close> borrows a connection. When that fails it logs the error and returns from
  the callback without settling the promise. Otherwise it sends the statement, releases
  the connection, and rejects or resolves with the outcome.
\<close>

definition query :: "statement \<Rightarrow> state \<Rightarrow> user_row list promise \<times> state" where
  "query sql s =
     (case pool s of
        [] \<Rightarrow> (Resolved (run_select sql (users s)), emit (Queried sql) s)
      | GetConnectionFails # rest \<Rightarrow>
          (Pending, console_error MysqlError (s\<lparr>pool := rest\<rparr>))
      | QueryFails # rest \<Rightarrow>
          (Rejected MysqlError, emit (Queried sql) (s\<lparr>pool := rest\<rparr>))
      | Served # rest \<Rightarrow>
          (Resolved (run_select sql (users s)), emit (Queried sql) (s\<lparr>pool := rest\<rparr>))
      | ServedAfter tbl # rest \<Rightarrow>
          (Resolved (run_select sql tbl), emit (Queried sql) (s\<lparr>users := tbl, pool := rest\<rparr>)))"

subsection \<open>authenticate\<close>

text \<open>
  \<open>next()\<close> is called without \<open>await\<close>: the caller goes on whatever the promise of
  the callback does, and a rejection of that promise has no handler. The callbacks of the
  source are \<open>async\<close> functions, so the call itself never throws. The model runs the
  callback to its end at the place of the call; nothing that \<open>authenticate\<close> or a guard
  does after the call can be seen, so the order of the trace is that of a real run.
\<close>

definition call_unawaited :: "stage \<Rightarrow> state \<Rightarrow> state" where
  "call_unawaited next s =
     (case next s of
        (Rejected err, s') \<Rightarrow> emit (UnhandledRejection err) s'
      | (_, s') \<Rightarrow> s')"

text \<open>\<open>jwt.verify(result[0].accessToken, "oranges")\<close>; a NULL token makes it throw.\<close>

definition verify_stored :: "jwt_verify \<Rightarrow> string option \<Rightarrow> jwt_payload option" where
  "verify_stored V tok = (case tok of None \<Rightarrow> None | Some t \<Rightarrow> V t ''oranges'')"

text \<open>The body of the \<open>try\<close> block of \<open>authenticate\<close>, for headers that are present.\<close>

definition authenticate_try :: "jwt_verify \<Rightarrow> string \<Rightarrow> string \<Rightarrow> stage \<Rightarrow> stage" where
  "authenticate_try V accessTok em next s =
     (case V accessTok ''oranges'' of
        None \<Rightarrow> (Rejected JsonWebTokenError, s)
      | Some requestToken \<Rightarrow>
          (case query (SelectUsersByEmail (Some em)) s of
             (Pending, s1) \<Rightarrow> (Pending, s1)
           | (Rejected err, s1) \<Rightarrow> (Rejected err, s1)
           | (Resolved result, s1) \<Rightarrow>
               (case result of
                  [] \<Rightarrow> (Rejected TypeError, s1)
                | row # _ \<Rightarrow>
                    (case verify_stored V (accessToken row) of
                       None \<Rightarrow> (Rejected JsonWebTokenError, s1)
                     | Some userToken \<Rightarrow>
                         if strict_equal requestToken userToken
                         then (Resolved (), call_unawaited next s1)
                         else (Rejected (Error ''Forbidden''), s1)))))"

text \<open>
  \<open>authenticate\<close>: the header check throws outside the \<open>try\<close>; whatever the \<open>try\<close>
  block throws is logged and replaced by \<open>Error("Internal Server Error")\<close>.
\<close>

definition authenticate :: "jwt_verify \<Rightarrow> request \<Rightarrow> stage \<Rightarrow> stage" where
  "authenticate V req next s =
     (if falsy (access_token_header req) \<or> falsy (email_header req)
      then (Rejected (Error ''Unauthorized''), s)
      else
        (case (access_token_header req, email_header req) of
           (Some accessTok, Some em) \<Rightarrow>
             (case authenticate_try V accessTok em next s of
                (Rejected err, s') \<Rightarrow>
                  (Rejected (Error ''Internal Server Error''), console_error err s')
              | other \<Rightarrow> other)
         | _ \<Rightarrow> (Rejected (Error ''Unauthorized''), s)))"

subsection \<open>userIsAdmin\<close>

text \<open>The callback that \<open>userIsAdmin\<close> hands to \<open>authenticate\<close>.\<close>

definition userIsAdmin_callback :: "request \<Rightarrow> stage \<Rightarrow> stage" where
  "userIsAdmin_callback req next s =
     (case query (SelectUsersByEmail (email_header req)) s of
        (Pending, s1) \<Rightarrow> (Pending, s1)
      | (Rejected err, s1) \<Rightarrow> (Rejected err, s1)
      | (Resolved result, s1) \<Rightarrow>
          if 0 < length result \<and> role (result ! 0) = ''ADMIN''
          then next s1
          else (Resolved (), sendStatus 403 s1))"

definition userIsAdmin :: "jwt_verify \<Rightarrow> request \<Rightarrow> stage \<Rightarrow> stage" where
  "userIsAdmin V req next s =
     (case authenticate V req (userIsAdmin_callback req next) s of
        (Rejected err, s') \<Rightarrow> (Resolved (), sendStatus 500 (console_error err s'))
      | other \<Rightarrow> other)"

subsection \<open>userIsSelfOrAdmin\<close>

definition userIsSelfOrAdmin_callback :: "request \<Rightarrow> stage \<Rightarrow> stage" where
  "userIsSelfOrAdmin_callback req next s =
     (let userId = params_id req;
          userRole = user_role_header req
      in if userId = params_id req \<or> userRole = Some ''ADMIN''
         then next s
         else (Resolved (), sendStatus 403 s))"

definition userIsSelfOrAdmin :: "jwt_verify \<Rightarrow> request \<Rightarrow> stage \<Rightarrow> stage" where
  "userIsSelfOrAdmin V req next s =
     (case authenticate V req (userIsSelfOrAdmin_callback req next) s of
        (Rejected err, s') \<Rightarrow> (Resolved (), sendStatus 500 (console_error err s'))
      | other \<Rightarrow> other)"

subsection \<open>The route that calls authenticate itself\<close>

text \<open>
  \<open>POST /users\<close> wraps \<open>authenticate\<close> in the same \<open>try\<close> and \<open>catch\<close> as the two guards.
  Its callback, which stores the new user, is a parameter here.
\<close>

definition create_user_route :: "jwt_verify \<Rightarrow> request \<Rightarrow> stage \<Rightarrow> stage" where
  "create_user_route V req body s =
     (case authenticate V req body s of
        (Rejected err, s') \<Rightarrow> (Resolved (), sendStatus 500 (console_error err s'))
      | other \<Rightarrow> other)"

subsection \<open>Observing a run\<close>

text \<open>
  The next stage behind a guard is a route handler. To see whether a guard calls it, the
  theorems run the guards with a handler that only records the call.
\<close>

definition next_stage :: stage where
  "next_stage s = (Resolved (), emit NextStage s)"

definition fresh :: "user_row list \<Rightarrow> pool_event list \<Rightarrow> state" where
  "fresh tbl p = \<lparr>users = tbl, pool = p, trace = []\<rparr>"

fun sent_code :: "event \<Rightarrow> nat option" where
  "sent_code (Sent c) = Some c"
| "sent_code _ = None"

fun is_query :: "event \<Rightarrow> bool" where
  "is_query (Queried _) = True"
| "is_query _ = False"

fun is_unhandled :: "event \<Rightarrow> bool" where
  "is_unhandled (UnhandledRejection _) = True"
| "is_unhandled _ = False"

text \<open>The status codes answered, the number of statements sent, and the two flags.\<close>

definition responses :: "state \<Rightarrow> nat list" where
  "responses s = List.map_filter sent_code (trace s)"

definition lookups :: "state \<Rightarrow> nat" where
  "lookups s = length (filter is_query (trace s))"

definition next_invoked :: "state \<Rightarrow> bool" where
  "next_invoked s = (NextStage \<in> set (trace s))"

definition unhandled :: "state \<Rightarrow> bool" where
  "unhandled s = list_ex is_unhandled (trace s)"

text \<open>
  A request passes token authentication when \<open>authenticate\<close>, run on it, calls its
  next stage.
\<close>

definition authenticated :: "jwt_verify \<Rightarrow> request \<Rightarrow> user_row list \<Rightarrow> pool_event list \<Rightarrow> bool" where
  "authenticated V req tbl p = next_invoked (snd (authenticate V req next_stage (fresh tbl p)))"

text \<open>
  What a caller and an operator can see of a run: how the promise of the guard ends, the
  status codes answered, whether the next stage ran, and whether a rejection was left
  without a handler.
\<close>

definition observe :: "unit promise \<times> state \<Rightarrow> unit promise \<times> nat list \<times> bool \<times> bool" where
  "observe r = (fst r, responses (snd r), next_invoked (snd r), unhandled (snd r))"

text \<open>
  The lookup that the callback of \<open>userIsAdmin\<close> makes: the second call of \<open>query\<close> of a
  run, after the one of \<open>authenticate\<close>. \<open>looked_up_role\<close> is the role of the row that the
  callback reads, when the lookup returns one.
\<close>

definition role_lookup :: "request \<Rightarrow> user_row list \<Rightarrow> pool_event list \<Rightarrow> user_row list promise" where
  "role_lookup req tbl p =
     fst (query (SelectUsersByEmail (email_header req))
       (snd (query (SelectUsersByEmail (email_header req)) (fresh tbl p))))"

definition looked_up_role :: "request \<Rightarrow> user_row list \<Rightarrow> pool_event list \<Rightarrow> string option" where
  "looked_up_role req tbl p =
     (case role_lookup req tbl p of
        Resolved (row # _) \<Rightarrow> Some (role row)
      | _ \<Rightarrow> None)"

text \<open>No other request writes to the table while the pool events \<open>p\<close> happen.\<close>

fun is_served_after :: "pool_event \<Rightarrow> bool" where
  "is_served_after (ServedAfter _) = True"
| "is_served_after _ = False"

definition store_unchanging :: "pool_event list \<Rightarrow> bool" where
  "store_unchanging p = (filter is_served_after p = [])"

text \<open>
  The second call of \<open>query\<close> of a run, if the pool events reach that far, is served from
  the table as the first call left it.
\<close>

fun second_lookup_served :: "pool_event list \<Rightarrow> bool" where
  "second_lookup_served (_ # ev # _) = (ev = Served)"
| "second_lookup_served _ = True"

text \<open>
  The pool hands out a connection for the first call of \<open>query\<close> of a run.
\<close>

fun connection_obtained :: "pool_event list \<Rightarrow> bool" where
  "connection_obtained (GetConnectionFails # _) = False"
| "connection_obtained _ = True"

text \<open>
  \<open>authenticate\<close> gets as far as its lookup: both headers are present and
  \<open>jwt.verify\<close> returns for the presented token.
\<close>

definition reaches_lookup :: "jwt_verify \<Rightarrow> request \<Rightarrow> bool" where
  "reaches_lookup V req =
     (case (access_token_header req, email_header req) of
        (Some accessTok, Some em) \<Rightarrow>
          accessTok \<noteq> [] \<and> em \<noteq> [] \<and> V accessTok ''oranges'' \<noteq> None
      | _ \<Rightarrow> False)"

subsection \<open>The failure taxonomy of the specification\<close>

text \<open>
  The specification names four reasons for which authentication fails. They are read off
  the branches of \<open>authenticate\<close>: a header is missing; the presented token or the
  stored one does not verify; the lookup returns no row; the two payloads are not
  \<open>===\<close>. A run that is accepted, or whose lookup does not return, has no reason.
\<close>

datatype auth_failure =
  MissingCredentials
| InvalidToken
| UnknownPrincipal
| TokenMismatch

definition failure_reason :: "jwt_verify \<Rightarrow> request \<Rightarrow> state \<Rightarrow> auth_failure option" where
  "failure_reason V req s =
     (if falsy (access_token_header req) \<or> falsy (email_header req)
      then Some MissingCredentials
      else
        (case (access_token_header req, email_header req) of
           (Some accessTok, Some em) \<Rightarrow>
             (case V accessTok ''oranges'' of
                None \<Rightarrow> Some InvalidToken
              | Some requestToken \<Rightarrow>
                  (case fst (query (SelectUsersByEmail (Some em)) s) of
                     Resolved [] \<Rightarrow> Some UnknownPrincipal
                   | Resolved (row # _) \<Rightarrow>
                       (case verify_stored V (accessToken row) of
                          None \<Rightarrow> Some InvalidToken
                        | Some userToken \<Rightarrow>
                            if strict_equal requestToken userToken then None
                            else Some TokenMismatch)
                   | _ \<Rightarrow> None))
         | _ \<Rightarrow> Some MissingCredentials))"

subsection \<open>The single-lookup variant of the specification\<close>

text \<open>
  The specification proposes a role authorizer that looks the account up once and shares
  the rows between the token check and the role check. These definitions follow that
  proposal: \<open>authenticate\<close> hands the rows of its lookup to the next stage, and the role
  check reads them instead of calling \<open>query\<close> again. Everything else is as in the source.
\<close>

definition authenticate_try_shared ::
  "jwt_verify \<Rightarrow> string \<Rightarrow> string \<Rightarrow> (user_row list \<Rightarrow> stage) \<Rightarrow> stage" where
  "authenticate_try_shared V accessTok em next s =
     (case V accessTok ''oranges'' of
        None \<Rightarrow> (Rejected JsonWebTokenError, s)
      | Some requestToken \<Rightarrow>
          (case query (SelectUsersByEmail (Some em)) s of
             (Pending, s1) \<Rightarrow> (Pending, s1)
           | (Rejected err, s1) \<Rightarrow> (Rejected err, s1)
           | (Resolved result, s1) \<Rightarrow>
               (case result of
                  [] \<Rightarrow> (Rejected TypeError, s1)
                | row # _ \<Rightarrow>
                    (case verify_stored V (accessToken row) of
                       None \<Rightarrow> (Rejected JsonWebTokenError, s1)
                     | Some userToken \<Rightarrow>
                         if strict_equal requestToken userToken
                         then (Resolved (), call_unawaited (next result) s1)
                         else (Rejected (Error ''Forbidden''), s1)))))"

definition authenticate_shared ::
  "jwt_verify \<Rightarrow> request \<Rightarrow> (user_row list \<Rightarrow> stage) \<Rightarrow> stage" where
  "authenticate_shared V req next s =
     (if falsy (access_token_header req) \<or> falsy (email_header req)
      then (Rejected (Error ''Unauthorized''), s)
      else
        (case (access_token_header req, email_header req) of
           (Some accessTok, Some em) \<Rightarrow>
             (case authenticate_try_shared V accessTok em next s of
                (Rejected err, s') \<Rightarrow>
                  (Rejected (Error ''Internal Server Error''), console_error err s')
              | other \<Rightarrow> other)
         | _ \<Rightarrow> (Rejected (Error ''Unauthorized''), s)))"

definition role_check_shared :: "stage \<Rightarrow> user_row list \<Rightarrow> stage" where
  "role_check_shared next result s =
     (if 0 < length result \<and> role (result ! 0) = ''ADMIN''
      then next s
      else (Resolved (), sendStatus 403 s))"

definition userIsAdmin_single_lookup :: "jwt_verify \<Rightarrow> request \<Rightarrow> stage \<Rightarrow> stage" where
  "userIsAdmin_single_lookup V req next s =
     (case authenticate_shared V req (role_check_shared next) s of
        (Rejected err, s') \<Rightarrow> (Resolved (), sendStatus 500 (console_error err s'))
      | other \<Rightarrow> other)"

subsection \<open>A concrete service for the examples\<close>

text \<open>
  A verifier that knows two tokens signed with the secret of the source, and a table
  with one administrator and one ordinary user.
\<close>

definition example_verify :: jwt_verify where
  "example_verify tok secret =
     (if secret = ''oranges'' \<and> tok = ''tokA'' then Some (PayloadString ''12345'')
      else if secret = ''oranges'' \<and> tok = ''tokB'' then Some (PayloadString ''67890'')
      else None)"

definition admin_row :: user_row where
  "admin_row = \<lparr>user_id = 1, name = ''Admin'', email = ''admin@example.com'',
     password = ''x'', role = ''ADMIN'', accessToken = Some ''tokA''\<rparr>"

definition john_row :: user_row where
  "john_row = \<lparr>user_id = 2, name = ''John Doe'', email = ''johndoe@example.com'',
     password = ''y'', role = ''USER'', accessToken = Some ''tokB''\<rparr>"

definition example_table :: "user_row list" where
  "example_table = [admin_row, john_row]"

definition admin_request :: request where
  "admin_request = \<lparr>access_token_header = Some ''tokA'',
     email_header = Some ''admin@example.com'', user_role_header = None,
     params_id = Some ''2''\<rparr>"

definition john_request :: request where
  "john_request = \<lparr>access_token_header = Some ''tokB'',
     email_header = Some ''johndoe@example.com'', user_role_header = Some ''USER'',
     params_id = Some ''1''\<rparr>"

section \<open>Case analysis of the middleware\<close>

subsection \<open>The ways a run of \<open>query\<close> and of \<open>authenticate\<close> can end\<close>

text \<open>
  \<open>query\<close> hangs, fails or returns rows. \<open>authenticate\<close> accepts after one lookup that
  returned at least one row, rejects after at most one lookup, or hangs with the lookup.
  In the last two cases the next stage plays no part.
\<close>

lemmas step_defs = emit_def console_error_def sendStatus_def

lemma query_outcomes:
  "(\<exists>s1. query sql s = (Pending, s1) \<and> trace s1 = trace s @ [ConsoleError MysqlError]) \<or>
   (\<exists>s1. query sql s = (Rejected MysqlError, s1) \<and> trace s1 = trace s @ [Queried sql]) \<or>
   (\<exists>rows s1. query sql s = (Resolved rows, s1) \<and> trace s1 = trace s @ [Queried sql])"
proof (cases "pool s")
  case Nil
  then show ?thesis by (simp add: query_def step_defs)
next
  case (Cons ev rest)
  then show ?thesis by (cases ev) (simp_all add: query_def step_defs)
qed

lemma query_cases [case_names Hang Fail Rows]:
  obtains
    (Hang) s1 where "query sql s = (Pending, s1)"
      and "trace s1 = trace s @ [ConsoleError MysqlError]"
  | (Fail) s1 where "query sql s = (Rejected MysqlError, s1)"
      and "trace s1 = trace s @ [Queried sql]"
  | (Rows) rows s1 where "query sql s = (Resolved rows, s1)"
      and "trace s1 = trace s @ [Queried sql]"
  using query_outcomes [of sql s] by blast

lemma authenticate_cases [case_names Accept Reject Hang]:
  obtains
    (Accept) rows s1 where
      "\<And>next. authenticate V req next s = (Resolved (), call_unawaited next s1)"
      and "query (SelectUsersByEmail (email_header req)) s = (Resolved rows, s1)"
      and "trace s1 = trace s @ [Queried (SelectUsersByEmail (email_header req))]"
      and "rows \<noteq> []"
      and "\<exists>tok em v u. access_token_header req = Some tok \<and> tok \<noteq> [] \<and>
             email_header req = Some em \<and> em \<noteq> [] \<and> V tok ''oranges'' = Some v \<and>
             verify_stored V (accessToken (hd rows)) = Some u \<and> strict_equal v u"
  | (Reject) err s1 evs where
      "\<And>next. authenticate V req next s = (Rejected err, s1)"
      and "trace s1 = trace s @ evs"
      and "evs = [] \<or> (\<exists>e. evs = [ConsoleError e]) \<or> (\<exists>q e. evs = [Queried q, ConsoleError e])"
      and "s1 = s \<or> (\<exists>e. s1 = console_error e s) \<or>
           (\<exists>e. s1 = console_error e (snd (query (SelectUsersByEmail (email_header req)) s)))"
  | (Hang) s1 where
      "\<And>next. authenticate V req next s = (Pending, s1)"
      and "query (SelectUsersByEmail (email_header req)) s = (Pending, s1)"
      and "trace s1 = trace s @ [ConsoleError MysqlError]"
      and "\<exists>tok em v. access_token_header req = Some tok \<and> tok \<noteq> [] \<and>
             email_header req = Some em \<and> em \<noteq> [] \<and> V tok ''oranges'' = Some v"
proof (cases "falsy (access_token_header req) \<or> falsy (email_header req)")
  case True
  then have "\<And>next. authenticate V req next s = (Rejected (Error ''Unauthorized''), s)"
    by (simp add: authenticate_def)
  then show ?thesis using Reject [of "Error ''Unauthorized''" s "[]"] by simp
next
  case False
  then obtain tok em where hdr: "access_token_header req = Some tok" "email_header req = Some em"
    and ne: "tok \<noteq> []" "em \<noteq> []"
    by (auto simp: falsy_def split: option.splits)
  let ?ise = "Error ''Internal Server Error''"
  let ?sel = "SelectUsersByEmail (Some em)"
  have rej: thesis
    if "\<And>next. authenticate_try V tok em next s = (Rejected e, s1)"
      and "trace s1 = trace s @ evs"
      and "evs = [] \<and> s1 = s \<or> evs = [Queried ?sel] \<and> s1 = snd (query ?sel s)" for e s1 evs
  proof -
    have "\<And>next. authenticate V req next s = (Rejected ?ise, console_error e s1)"
      using False hdr that(1) by (simp add: authenticate_def)
    moreover have "trace (console_error e s1) = trace s @ (evs @ [ConsoleError e])"
      using that(2) by (simp add: step_defs)
    ultimately show thesis
      using that(3) hdr Reject [of ?ise "console_error e s1" "evs @ [ConsoleError e]"] by auto
  qed
  show ?thesis
  proof (cases "V tok ''oranges''")
    case None
    then show ?thesis using rej [of JsonWebTokenError s "[]"]
      by (simp add: authenticate_try_def)
  next
    case (Some requestToken)
    note v = Some
    show ?thesis
    proof (cases rule: query_cases [of ?sel s])
      case (Hang s1)
      have "\<And>next. authenticate V req next s = (Pending, s1)"
        using False hdr v Hang(1) by (simp add: authenticate_def authenticate_try_def)
      then show ?thesis using Hang hdr ne v that(3) by simp
    next
      case (Fail s1)
      then show ?thesis
        using v rej [of MysqlError s1 "[Queried ?sel]"]
        by (simp add: authenticate_try_def)
    next
      case (Rows rows s1)
      note q = Rows
      show ?thesis
      proof (cases rows)
        case Nil
        then show ?thesis
          using v q rej [of TypeError s1 "[Queried ?sel]"]
          by (simp add: authenticate_try_def)
      next
        case (Cons row rest)
        show ?thesis
        proof (cases "verify_stored V (accessToken row)")
          case None
          then show ?thesis
            using v q Cons rej [of JsonWebTokenError s1 "[Queried ?sel]"]
            by (simp add: authenticate_try_def)
        next
          case (Some userToken)
          note u = Some
          show ?thesis
          proof (cases "strict_equal requestToken userToken")
            case True
            have "\<And>next. authenticate V req next s =
                (Resolved (), call_unawaited next s1)"
              using False hdr v q Cons u True
              by (simp add: authenticate_def authenticate_try_def)
            then show ?thesis using q hdr ne v u True Cons Accept [of s1 rows] by simp
          next
            case False
            then show ?thesis
              using v q Cons u rej [of "Error ''Forbidden''" s1 "[Queried ?sel]"]
              by (simp add: authenticate_try_def)
          qed
        qed
      qed
    qed
  qed
qed

subsection \<open>What the guards do in each case\<close>

lemma strict_equal_eq: "strict_equal a b \<Longrightarrow> a = b"
  by (cases a; cases b) simp_all

lemma call_next_stage: "call_unawaited next_stage s = emit NextStage s"
  by (simp add: call_unawaited_def next_stage_def)

lemmas obs_defs = responses_def lookups_def next_invoked_def unhandled_def List.map_filter_def

lemma reject_observed:
  assumes "trace s1 = evs"
    and "evs = [] \<or> (\<exists>e. evs = [ConsoleError e]) \<or> (\<exists>q e. evs = [Queried q, ConsoleError e])"
  shows "observe (Resolved (), sendStatus 500 (console_error err s1)) =
         (Resolved (), [500], False, False)"
  using assms by (auto simp: observe_def obs_defs step_defs)

lemma userIsAdmin_reject:
  assumes "\<And>next. authenticate V req next s = (Rejected err, s1)"
  shows "userIsAdmin V req next s = (Resolved (), sendStatus 500 (console_error err s1))"
  by (simp add: userIsAdmin_def assms)

lemma userIsSelfOrAdmin_reject:
  assumes "\<And>next. authenticate V req next s = (Rejected err, s1)"
  shows "userIsSelfOrAdmin V req next s = (Resolved (), sendStatus 500 (console_error err s1))"
  by (simp add: userIsSelfOrAdmin_def assms)

lemma userIsSelfOrAdmin_callback_next [simp]:
  "userIsSelfOrAdmin_callback req next s = next s"
  by (simp add: userIsSelfOrAdmin_callback_def)

lemma userIsAdmin_accept_observed:
  assumes "\<And>next. authenticate V req next s = (Resolved (), call_unawaited next s1)"
    and "trace s1 = [Queried q]"
  shows "observe (userIsAdmin V req next_stage s) =
     (case fst (query (SelectUsersByEmail (email_header req)) s1) of
        Pending \<Rightarrow> (Resolved (), [], False, False)
      | Rejected e \<Rightarrow> (Resolved (), [], False, True)
      | Resolved rows \<Rightarrow>
          if 0 < length rows \<and> role (rows ! 0) = ''ADMIN''
          then (Resolved (), [], True, False)
          else (Resolved (), [403], False, False))"
proof -
  let ?sel = "SelectUsersByEmail (email_header req)"
  have run: "userIsAdmin V req next_stage s =
      (Resolved (), call_unawaited (userIsAdmin_callback req next_stage) s1)"
    by (simp add: userIsAdmin_def assms(1))
  show ?thesis
  proof (cases rule: query_cases [of ?sel s1])
    case (Hang s2)
    then show ?thesis
      using run assms(2)
      by (simp add: userIsAdmin_callback_def call_unawaited_def observe_def obs_defs)
  next
    case (Fail s2)
    then show ?thesis
      using run assms(2)
      by (simp add: userIsAdmin_callback_def call_unawaited_def observe_def obs_defs step_defs)
  next
    case (Rows rows s2)
    then show ?thesis
      using run assms(2)
      by (simp add: userIsAdmin_callback_def call_unawaited_def next_stage_def observe_def
          obs_defs step_defs)
  qed
qed

lemma authenticated_accept:
  assumes "authenticated V req tbl p"
  shows "\<exists>rows s1.
    (\<forall>next. authenticate V req next (fresh tbl p) = (Resolved (), call_unawaited next s1)) \<and>
    query (SelectUsersByEmail (email_header req)) (fresh tbl p) = (Resolved rows, s1) \<and>
    trace s1 = [Queried (SelectUsersByEmail (email_header req))] \<and> rows \<noteq> []"
proof (cases rule: authenticate_cases [of V req "fresh tbl p"])
  case (Accept rows s1)
  then show ?thesis by (auto simp: fresh_def)
next
  case (Reject err s1 evs)
  then have "\<not> authenticated V req tbl p"
    by (auto simp: authenticated_def obs_defs fresh_def)
  then show ?thesis using assms by simp
next
  case (Hang s1)
  then have "\<not> authenticated V req tbl p"
    by (simp add: authenticated_def obs_defs fresh_def)
  then show ?thesis using assms by simp
qed

text \<open>
  A token whose payload is a JSON object is never accepted, not even against itself:
  the two payloads are two objects, and \<open>===\<close> compares objects by identity.
\<close>

lemma object_payload_never_accepted:
  assumes "access_token_header req = Some tok"
    and "V tok ''oranges'' = Some (PayloadObject obj)"
  shows "\<not> authenticated V req tbl p"
proof
  assume "authenticated V req tbl p"
  then show False
  proof (cases rule: authenticate_cases [of V req "fresh tbl p"])
    case (Accept rows s1)
    then show ?thesis using assms by auto
  next
    case (Reject err s1 evs)
    then have "\<not> authenticated V req tbl p"
      by (auto simp: authenticated_def obs_defs fresh_def)
    then show ?thesis using \<open>authenticated V req tbl p\<close> by simp
  next
    case (Hang s1)
    then have "\<not> authenticated V req tbl p"
      by (simp add: authenticated_def obs_defs fresh_def)
    then show ?thesis using \<open>authenticated V req tbl p\<close> by simp
  qed
qed

lemma userIsAdmin_ignores_role_header:
  "userIsAdmin V (req\<lparr>user_role_header := h\<rparr>) next s = userIsAdmin V req next s"
  by (simp add: userIsAdmin_def authenticate_def userIsAdmin_callback_def [abs_def])

lemmas example_defs = example_verify_def admin_request_def john_request_def example_table_def
  admin_row_def john_row_def

lemmas run_defs = authenticate_def authenticate_try_def query_def call_unawaited_def
  verify_stored_def userIsAdmin_def userIsAdmin_callback_def userIsSelfOrAdmin_def
  next_stage_def fresh_def falsy_def

lemma failure_rejected:
  assumes "failure_reason V req (fresh tbl p) = Some r"
  shows "observe (userIsAdmin V req next_stage (fresh tbl p)) = (Resolved (), [500], False, False) \<and>
         observe (userIsSelfOrAdmin V req next_stage (fresh tbl p)) =
           (Resolved (), [500], False, False)"
proof (cases rule: authenticate_cases [of V req "fresh tbl p"])
  case (Accept rows s1)
  then obtain row rest where "rows = row # rest" by (cases rows) simp_all
  then have "failure_reason V req (fresh tbl p) = None"
    using Accept(2,5) by (auto simp: failure_reason_def falsy_def)
  then show ?thesis using assms by simp
next
  case (Reject err s1 evs)
  have tr: "trace s1 = evs" using Reject(2) by (simp add: fresh_def)
  show ?thesis
    using userIsAdmin_reject [OF Reject(1)] userIsSelfOrAdmin_reject [OF Reject(1)]
      reject_observed [OF tr Reject(3)]
    by simp
next
  case (Hang s1)
  then have "failure_reason V req (fresh tbl p) = None"
    by (auto simp: failure_reason_def falsy_def)
  then show ?thesis using assms by simp
qed

text \<open>The other two reasons of the taxonomy at concrete requests.\<close>

lemma failure_reason_examples:
  "failure_reason example_verify (admin_request\<lparr>access_token_header := Some ''bad''\<rparr>)
     (fresh example_table []) = Some InvalidToken"
  "failure_reason example_verify (admin_request\<lparr>access_token_header := Some ''tokB''\<rparr>)
     (fresh example_table []) = Some TokenMismatch"
  by (simp_all add: failure_reason_def run_defs example_defs step_defs)

text \<open>A statement that fails inside \<open>authenticate\<close> is answered with 500.\<close>

lemma query_failure_in_authenticate_answered:
  "observe (userIsAdmin example_verify admin_request next_stage
     (fresh example_table [QueryFails])) = (Resolved (), [500], False, False)"
  by (simp add: observe_def run_defs example_defs obs_defs step_defs)

subsection \<open>The guards do not write\<close>

lemma query_keeps_store:
  assumes "store_unchanging (pool s)"
  shows "users (snd (query sql s)) = users s \<and> store_unchanging (pool (snd (query sql s)))"
proof (cases "pool s")
  case Nil
  then show ?thesis by (simp add: query_def step_defs store_unchanging_def)
next
  case (Cons ev rest)
  then show ?thesis
    using assms
    by (cases ev) (simp_all add: query_def step_defs store_unchanging_def split: if_splits)
qed

lemma call_unawaited_users:
  assumes "users (snd (next s)) = users s"
  shows "users (call_unawaited next s) = users s"
  using assms by (cases "next s") (simp add: call_unawaited_def step_defs split: promise.splits)

lemma authenticate_keeps_users:
  assumes "\<And>st. store_unchanging (pool st) \<Longrightarrow> users (snd (next st)) = users st"
    and "store_unchanging (pool s)"
  shows "users (snd (authenticate V req next s)) = users s"
proof (cases rule: authenticate_cases [of V req s])
  case (Accept rows s1)
  have "s1 = snd (query (SelectUsersByEmail (email_header req)) s)"
    using Accept(2) by simp
  then have "users s1 = users s" and "store_unchanging (pool s1)"
    using query_keeps_store [OF assms(2)] by simp_all
  then show ?thesis
    using Accept(1) assms(1) call_unawaited_users [of "next" s1] by simp
next
  case (Reject err s1 evs)
  then show ?thesis
    using query_keeps_store [OF assms(2)] by (auto simp: step_defs)
next
  case (Hang s1)
  have "s1 = snd (query (SelectUsersByEmail (email_header req)) s)"
    using Hang(2) by simp
  then show ?thesis using Hang(1) query_keeps_store [OF assms(2)] by simp
qed

lemma next_stage_users: "users (snd (next_stage st)) = users st"
  by (simp add: next_stage_def step_defs)

lemma userIsAdmin_callback_keeps_users:
  assumes "store_unchanging (pool s)"
  shows "users (snd (userIsAdmin_callback req next_stage s)) = users s"
proof (cases "query (SelectUsersByEmail (email_header req)) s")
  case (Pair r s1)
  then have "users s1 = users s"
    using query_keeps_store [OF assms, of "SelectUsersByEmail (email_header req)"] by simp
  then show ?thesis
    using Pair by (cases r) (simp_all add: userIsAdmin_callback_def next_stage_def step_defs)
qed

lemma guard_wrapper_users:
  "users (snd (case r of (Rejected err, s') \<Rightarrow> (Resolved (), sendStatus 500 (console_error err s'))
      | other \<Rightarrow> other)) = users (snd r)"
  by (cases r) (simp add: step_defs split: promise.splits)

lemma guards_keep_users:
  assumes "store_unchanging p"
  shows "users (snd (authenticate V req next_stage (fresh tbl p))) = tbl"
    and "users (snd (userIsAdmin V req next_stage (fresh tbl p))) = tbl"
    and "users (snd (userIsSelfOrAdmin V req next_stage (fresh tbl p))) = tbl"
proof -
  have p: "store_unchanging (pool (fresh tbl p))" using assms by (simp add: fresh_def)
  have u: "users (fresh tbl p) = tbl" by (simp add: fresh_def)
  show "users (snd (authenticate V req next_stage (fresh tbl p))) = tbl"
    using authenticate_keeps_users [OF next_stage_users p] u by simp
  show "users (snd (userIsAdmin V req next_stage (fresh tbl p))) = tbl"
    unfolding userIsAdmin_def guard_wrapper_users
    using authenticate_keeps_users [OF userIsAdmin_callback_keeps_users p] u by simp
  show "users (snd (userIsSelfOrAdmin V req next_stage (fresh tbl p))) = tbl"
    unfolding userIsSelfOrAdmin_def guard_wrapper_users
    using authenticate_keeps_users [of "userIsSelfOrAdmin_callback req next_stage", OF _ p] u
    by (simp add: next_stage_users)
qed

subsection \<open>The second lookup\<close>

lemma query_twice:
  assumes "query sql s = (Resolved rows, s1)" and "second_lookup_served (pool s)"
  shows "fst (query sql s1) = Resolved rows"
proof (cases "pool s")
  case Nil
  then show ?thesis using assms(1) by (auto simp: query_def step_defs)
next
  case (Cons ev rest)
  note c = Cons
  have r: "rest = [] \<or> (\<exists>rest'. rest = Served # rest')"
    using assms(2) c by (cases rest) simp_all
  show ?thesis
  proof (cases ev)
    case GetConnectionFails
    then show ?thesis using assms(1) c by (simp add: query_def)
  next
    case QueryFails
    then show ?thesis using assms(1) c by (simp add: query_def)
  next
    case Served
    then show ?thesis using assms(1) c r by (auto simp: query_def step_defs)
  next
    case (ServedAfter tbl)
    then show ?thesis using assms(1) c r by (auto simp: query_def step_defs)
  qed
qed

text \<open>
  The variant that shares its rows is the source function, run with the next stage that
  has been handed the rows of the lookup.
\<close>

lemma authenticate_try_shared_via_source:
  "authenticate_try_shared V tok em nxt s =
   authenticate_try V tok em
     (nxt (case fst (query (SelectUsersByEmail (Some em)) s) of
             Resolved rows \<Rightarrow> rows | _ \<Rightarrow> [])) s"
proof (cases "query (SelectUsersByEmail (Some em)) s")
  case (Pair r s1)
  then show ?thesis
    by (cases r; cases "V tok ''oranges''")
      (simp_all add: authenticate_try_shared_def authenticate_try_def)
qed

lemma authenticate_shared_via_source:
  "authenticate_shared V req nxt s =
   authenticate V req
     (nxt (case fst (query (SelectUsersByEmail (email_header req)) s) of
             Resolved rows \<Rightarrow> rows | _ \<Rightarrow> [])) s"
  by (simp add: authenticate_shared_def authenticate_def authenticate_try_shared_via_source
      split: option.splits)

subsection \<open>Lookups sent, and emails without an account\<close>

lemma query_lookups:
  "lookups (snd (query sql s)) = lookups s + (if connection_obtained (pool s) then 1 else 0)"
proof (cases "pool s")
  case Nil
  then show ?thesis by (simp add: query_def lookups_def step_defs)
next
  case (Cons ev rest)
  then show ?thesis by (cases ev) (simp_all add: query_def lookups_def step_defs)
qed

lemma query_pending_iff:
  "fst (query sql s) = Pending \<longleftrightarrow> \<not> connection_obtained (pool s)"
proof (cases "pool s")
  case Nil
  then show ?thesis by (simp add: query_def)
next
  case (Cons ev rest)
  then show ?thesis by (cases ev) (simp_all add: query_def)
qed

lemma query_rows_unchanging:
  assumes "store_unchanging (pool s)" and "query sql s = (Resolved rows, s1)"
  shows "rows = run_select sql (users s)"
proof (cases "pool s")
  case Nil
  then show ?thesis using assms(2) by (auto simp: query_def)
next
  case (Cons ev rest)
  then show ?thesis
    using assms by (cases ev) (auto simp: query_def store_unchanging_def)
qed

text \<open>
  \<open>authenticate\<close> sends its one statement exactly when it gets as far as the lookup and
  the pool hands out a connection, whether it then accepts or rejects.
\<close>

lemma authenticate_lookups_exact:
  "lookups (snd (authenticate V req next_stage (fresh tbl p))) =
     (if reaches_lookup V req \<and> connection_obtained p then 1 else 0)"
proof (cases "reaches_lookup V req")
  case False
  then have "snd (authenticate V req next_stage (fresh tbl p)) = fresh tbl p \<or>
      snd (authenticate V req next_stage (fresh tbl p)) =
        console_error JsonWebTokenError (fresh tbl p)"
    by (auto simp: reaches_lookup_def authenticate_def authenticate_try_def falsy_def
        split: option.splits)
  then show ?thesis using False by (auto simp: lookups_def fresh_def step_defs)
next
  case True
  then obtain tok em v where hdr: "access_token_header req = Some tok" "tok \<noteq> []"
      "email_header req = Some em" "em \<noteq> []" "V tok ''oranges'' = Some v"
    by (auto simp: reaches_lookup_def split: option.splits)
  let ?sel = "SelectUsersByEmail (Some em)"
  obtain r s1 where q: "query ?sel (fresh tbl p) = (r, s1)" by (cases "query ?sel (fresh tbl p)")
  have "lookups (snd (authenticate V req next_stage (fresh tbl p))) = lookups s1"
    using hdr q
    by (cases r)
      (auto simp: authenticate_def authenticate_try_def falsy_def call_next_stage lookups_def
        step_defs split: list.splits option.splits)
  moreover have "lookups s1 = (if connection_obtained p then 1 else 0)"
    using query_lookups [of ?sel "fresh tbl p"] q by (simp add: fresh_def lookups_def)
  ultimately show ?thesis using True by simp
qed

text \<open>
  A claimed email that no row of the table carries, while no other request writes: the
  next stage is never called, whatever the persistence layer does, and when the pool hands
  out a connection \<open>authenticate\<close> rejects and every caller of it answers 500.
\<close>

lemma unknown_email_unauthorized:
  assumes "email_header req = Some e"
    and "run_select (SelectUsersByEmail (Some e)) tbl = []"
    and "store_unchanging p"
  shows "\<not> next_invoked (snd (authenticate V req next_stage (fresh tbl p))) \<and>
         \<not> unhandled (snd (authenticate V req next_stage (fresh tbl p))) \<and>
         \<not> next_invoked (snd (userIsAdmin V req next_stage (fresh tbl p))) \<and>
         \<not> unhandled (snd (userIsAdmin V req next_stage (fresh tbl p))) \<and>
         \<not> next_invoked (snd (userIsSelfOrAdmin V req next_stage (fresh tbl p))) \<and>
         \<not> unhandled (snd (userIsSelfOrAdmin V req next_stage (fresh tbl p))) \<and>
         \<not> next_invoked (snd (create_user_route V req next_stage (fresh tbl p))) \<and>
         \<not> unhandled (snd (create_user_route V req next_stage (fresh tbl p))) \<and>
         (connection_obtained p \<longrightarrow>
            (\<exists>err. fst (authenticate V req next_stage (fresh tbl p)) = Rejected err) \<and>
            observe (userIsAdmin V req next_stage (fresh tbl p)) =
              (Resolved (), [500], False, False) \<and>
            observe (userIsSelfOrAdmin V req next_stage (fresh tbl p)) =
              (Resolved (), [500], False, False) \<and>
            observe (create_user_route V req next_stage (fresh tbl p)) =
              (Resolved (), [500], False, False))"
proof (cases rule: authenticate_cases [of V req "fresh tbl p"])
  case (Accept rows s1)
  have "rows = run_select (SelectUsersByEmail (Some e)) tbl"
    using query_rows_unchanging [of "fresh tbl p" "SelectUsersByEmail (Some e)" rows s1]
      Accept(2) assms(1,3)
    by (simp add: fresh_def)
  then show ?thesis using Accept(4) assms(2) by simp
next
  case (Reject err s1 evs)
  have tr: "trace s1 = evs" using Reject(2) by (simp add: fresh_def)
  have "\<not> next_invoked s1" and "\<not> unhandled s1"
    using tr Reject(3) by (auto simp: obs_defs)
  moreover have "observe (userIsAdmin V req next_stage (fresh tbl p)) =
      (Resolved (), [500], False, False)"
    using userIsAdmin_reject [OF Reject(1)] reject_observed [OF tr Reject(3)] by simp
  moreover have "observe (userIsSelfOrAdmin V req next_stage (fresh tbl p)) =
      (Resolved (), [500], False, False)"
    using userIsSelfOrAdmin_reject [OF Reject(1)] reject_observed [OF tr Reject(3)] by simp
  moreover have "observe (create_user_route V req next_stage (fresh tbl p)) =
      (Resolved (), [500], False, False)"
    using reject_observed [OF tr Reject(3)] by (simp add: create_user_route_def Reject(1))
  ultimately show ?thesis using Reject(1) by (simp add: observe_def)
next
  case (Hang s1)
  have tr: "trace s1 = [ConsoleError MysqlError]" using Hang(3) by (simp add: fresh_def)
  have "\<not> connection_obtained p"
    using query_pending_iff [of "SelectUsersByEmail (email_header req)" "fresh tbl p"] Hang(2)
    by (simp add: fresh_def)
  moreover have "userIsAdmin V req next_stage (fresh tbl p) = (Pending, s1)"
    and "userIsSelfOrAdmin V req next_stage (fresh tbl p) = (Pending, s1)"
    and "create_user_route V req next_stage (fresh tbl p) = (Pending, s1)"
    by (simp_all add: userIsAdmin_def userIsSelfOrAdmin_def create_user_route_def Hang(1))
  ultimately show ?thesis using Hang(1) tr by (simp add: obs_defs)
qed

section \<open>The claims\<close>

text \<open>
  Claim C1. For every request that passes token authentication, \<open>userIsSelfOrAdmin\<close>
  calls the next stage and answers nothing itself. It never answers 403, and its run does
  not depend on the path parameter or on the \<open>user-role\<close> header, because its callback
  compares \<open>req.params.id\<close> with itself.
\<close>

theorem userIsSelfOrAdmin_accepts_every_authenticated:
  "(authenticated V req tbl p \<longrightarrow>
      observe (userIsSelfOrAdmin V req next_stage (fresh tbl p)) = (Resolved (), [], True, False)) \<and>
   403 \<notin> set (responses (snd (userIsSelfOrAdmin V req next_stage (fresh tbl p)))) \<and>
   userIsSelfOrAdmin V (req\<lparr>params_id := i, user_role_header := h\<rparr>) next_stage (fresh tbl p) =
     userIsSelfOrAdmin V req next_stage (fresh tbl p)"
proof -
  have indep: "userIsSelfOrAdmin V (req\<lparr>params_id := i, user_role_header := h\<rparr>) next_stage
      (fresh tbl p) = userIsSelfOrAdmin V req next_stage (fresh tbl p)"
    by (simp add: userIsSelfOrAdmin_def authenticate_def fun_eq_iff
        userIsSelfOrAdmin_callback_next [abs_def])
  show ?thesis
  proof (cases rule: authenticate_cases [of V req "fresh tbl p"])
    case (Accept rows s1)
    have tr: "trace s1 = [Queried (SelectUsersByEmail (email_header req))]"
      using Accept(3) by (simp add: fresh_def)
    have "userIsSelfOrAdmin V req next_stage (fresh tbl p) = (Resolved (), emit NextStage s1)"
      by (simp add: userIsSelfOrAdmin_def Accept(1) call_unawaited_def next_stage_def)
    then show ?thesis using tr indep by (simp add: observe_def obs_defs step_defs)
  next
    case (Reject err s1 evs)
    have tr: "trace s1 = evs" using Reject(2) by (simp add: fresh_def)
    have "\<not> authenticated V req tbl p"
      using Reject(1,3) tr by (auto simp: authenticated_def obs_defs)
    moreover have "observe (userIsSelfOrAdmin V req next_stage (fresh tbl p)) =
        (Resolved (), [500], False, False)"
      using userIsSelfOrAdmin_reject [OF Reject(1)] reject_observed [OF tr Reject(3)] by simp
    ultimately show ?thesis using indep by (simp add: observe_def)
  next
    case (Hang s1)
    have tr: "trace s1 = [ConsoleError MysqlError]" using Hang(3) by (simp add: fresh_def)
    have "\<not> authenticated V req tbl p"
      using Hang(1) tr by (simp add: authenticated_def obs_defs)
    moreover have "userIsSelfOrAdmin V req next_stage (fresh tbl p) = (Pending, s1)"
      by (simp add: userIsSelfOrAdmin_def Hang(1))
    ultimately show ?thesis using indep tr by (simp add: obs_defs)
  qed
qed

theorem userIsSelfOrAdmin_accepts_every_authenticated_witness:
  "authenticated example_verify john_request example_table [] \<and>
   observe (userIsSelfOrAdmin example_verify john_request next_stage (fresh example_table [])) =
     (Resolved (), [], True, False) \<and>
   userIsSelfOrAdmin example_verify
     (john_request\<lparr>params_id := Some ''2'', user_role_header := Some ''ADMIN''\<rparr>) next_stage (fresh example_table []) =
   userIsSelfOrAdmin example_verify john_request next_stage (fresh example_table [])"
proof -
  have "authenticated example_verify john_request example_table []"
    by (simp add: authenticated_def authenticate_def authenticate_try_def query_def
        call_unawaited_def verify_stored_def next_stage_def fresh_def falsy_def
        example_verify_def john_request_def example_table_def admin_row_def john_row_def
        obs_defs step_defs)
  then show ?thesis
    using userIsSelfOrAdmin_accepts_every_authenticated [where V = example_verify
        and req = john_request and tbl = example_table and p = "[]" and i = "Some ''2''"
        and h = "Some ''ADMIN''"]
    by simp
qed

text \<open>
  Claim C2. For every request that passes token authentication, \<open>userIsAdmin\<close> calls the
  next stage if and only if the row that its own lookup returns for the claimed email has
  role \<open>ADMIN\<close>. When that lookup returns and the role is not \<open>ADMIN\<close>, the guard answers
  403 and does not call the next stage. The \<open>user-role\<close> header plays no part. When the
  persistence layer serves every lookup from the table, the row is the first row of the
  table with the claimed email.
\<close>

theorem userIsAdmin_allows_iff_admin:
  assumes "authenticated V req tbl p"
  shows "(next_invoked (snd (userIsAdmin V req next_stage (fresh tbl p))) \<longleftrightarrow>
            looked_up_role req tbl p = Some ''ADMIN'') \<and>
         ((\<exists>rows. role_lookup req tbl p = Resolved rows) \<and>
            looked_up_role req tbl p \<noteq> Some ''ADMIN'' \<longrightarrow>
            observe (userIsAdmin V req next_stage (fresh tbl p)) =
              (Resolved (), [403], False, False)) \<and>
         userIsAdmin V (req\<lparr>user_role_header := h\<rparr>) next_stage (fresh tbl p) =
           userIsAdmin V req next_stage (fresh tbl p) \<and>
         (p = [] \<longrightarrow>
            (next_invoked (snd (userIsAdmin V req next_stage (fresh tbl p))) \<longleftrightarrow>
               (\<exists>row rest. run_select (SelectUsersByEmail (email_header req)) tbl = row # rest \<and>
                  role row = ''ADMIN'')))"
proof -
  obtain rows s1 where
    acc: "\<And>next. authenticate V req next (fresh tbl p) = (Resolved (), call_unawaited next s1)"
    and q: "query (SelectUsersByEmail (email_header req)) (fresh tbl p) = (Resolved rows, s1)"
    and tr: "trace s1 = [Queried (SelectUsersByEmail (email_header req))]"
    and ne: "rows \<noteq> []"
    using authenticated_accept [OF assms] by blast
  have rl: "role_lookup req tbl p = fst (query (SelectUsersByEmail (email_header req)) s1)"
    by (simp add: role_lookup_def q)
  note obs = userIsAdmin_accept_observed [OF acc tr, folded rl]
  have main: "(next_invoked (snd (userIsAdmin V req next_stage (fresh tbl p))) \<longleftrightarrow>
            looked_up_role req tbl p = Some ''ADMIN'') \<and>
         ((\<exists>rows. role_lookup req tbl p = Resolved rows) \<and>
            looked_up_role req tbl p \<noteq> Some ''ADMIN'' \<longrightarrow>
            observe (userIsAdmin V req next_stage (fresh tbl p)) =
              (Resolved (), [403], False, False))"
  proof (cases "role_lookup req tbl p")
    case (Resolved rows2)
    then show ?thesis
      using obs
      by (cases rows2) (auto simp: observe_def looked_up_role_def split: if_splits)
  next
    case (Rejected e)
    then show ?thesis
      using obs by (simp add: observe_def looked_up_role_def)
  next
    case Pending
    then show ?thesis
      using obs by (simp add: observe_def looked_up_role_def)
  qed
  have served: "looked_up_role req tbl [] = Some ''ADMIN'' \<longleftrightarrow>
      (\<exists>row rest. run_select (SelectUsersByEmail (email_header req)) tbl = row # rest \<and>
         role row = ''ADMIN'')"
    by (cases "run_select (SelectUsersByEmail (email_header req)) tbl")
      (simp_all add: looked_up_role_def role_lookup_def query_def fresh_def step_defs)
  show ?thesis
    using main served userIsAdmin_ignores_role_header [where V = V and req = req and h = h
        and s = "fresh tbl p"]
    by blast
qed

theorem userIsAdmin_allows_iff_admin_witness:
  "authenticated example_verify john_request example_table [] \<and>
   role_lookup john_request example_table [] = Resolved [john_row] \<and>
   looked_up_role john_request example_table [] \<noteq> Some ''ADMIN'' \<and>
   \<not> next_invoked (snd (userIsAdmin example_verify john_request next_stage (fresh example_table []))) \<and>
   observe (userIsAdmin example_verify john_request next_stage (fresh example_table [])) =
     (Resolved (), [403], False, False) \<and>
   userIsAdmin example_verify (john_request\<lparr>user_role_header := Some ''ADMIN''\<rparr>) next_stage
     (fresh example_table []) =
   userIsAdmin example_verify john_request next_stage (fresh example_table []) \<and>
   authenticated example_verify admin_request example_table [] \<and>
   looked_up_role admin_request example_table [] = Some ''ADMIN'' \<and>
   next_invoked (snd (userIsAdmin example_verify admin_request next_stage (fresh example_table [])))"
proof -
  have h1: "authenticated example_verify john_request example_table []"
    by (simp add: authenticated_def run_defs example_defs obs_defs step_defs)
  have h2: "role_lookup john_request example_table [] = Resolved [john_row]"
    by (simp add: role_lookup_def run_defs example_defs step_defs)
  have h3: "looked_up_role john_request example_table [] \<noteq> Some ''ADMIN''"
    by (simp add: looked_up_role_def h2) (simp add: john_row_def)
  have h4: "authenticated example_verify admin_request example_table []"
    by (simp add: authenticated_def run_defs example_defs obs_defs step_defs)
  have h5: "looked_up_role admin_request example_table [] = Some ''ADMIN''"
    by (simp add: looked_up_role_def role_lookup_def run_defs example_defs step_defs)
  show ?thesis
    using userIsAdmin_allows_iff_admin [OF h1, where h = "Some ''ADMIN''"]
      userIsAdmin_allows_iff_admin [OF h4, where h = None] h1 h2 h3 h4 h5
    by blast
qed

text \<open>
  Claim C3. When the \<open>access-token\<close> header or the \<open>email\<close> header is absent,
  \<open>authenticate\<close> rejects with \<open>Error("Unauthorized")\<close> and hands back the state as it
  found it: whatever the next stage is, it has not been called, and no statement has been
  sent to the persistence layer.
\<close>

theorem authenticate_missing_header_rejects:
  assumes "access_token_header req = None \<or> email_header req = None"
  shows "authenticate V req next s = (Rejected (Error ''Unauthorized''), s) \<and>
         lookups (snd (authenticate V req next s)) = lookups s \<and>
         \<not> next_invoked (snd (authenticate V req next_stage (fresh tbl p)))"
proof -
  have "falsy (access_token_header req) \<or> falsy (email_header req)"
    using assms by (auto simp: falsy_def)
  then have "\<And>nxt st. authenticate V req nxt st = (Rejected (Error ''Unauthorized''), st)"
    by (simp add: authenticate_def)
  then show ?thesis by (simp add: next_invoked_def fresh_def)
qed

theorem authenticate_missing_header_rejects_witness:
  "(access_token_header (admin_request\<lparr>email_header := None\<rparr>) = None \<or>
    email_header (admin_request\<lparr>email_header := None\<rparr>) = None) \<and>
   authenticate example_verify (admin_request\<lparr>email_header := None\<rparr>) next_stage
     (fresh example_table []) =
     (Rejected (Error ''Unauthorized''), fresh example_table []) \<and>
   lookups (snd (authenticate example_verify (admin_request\<lparr>email_header := None\<rparr>)
     next_stage (fresh example_table []))) = 0"
  using authenticate_missing_header_rejects [of "admin_request\<lparr>email_header := None\<rparr>"
      example_verify next_stage "fresh example_table []" example_table "[]"]
  by (simp add: lookups_def fresh_def)

text \<open>
  Claim C4 says that a request whose claimed email matches no account is rejected and
  answered with 500. Take such a request with a valid token, and let the pool fail to
  hand out a connection: \<open>query\<close> never settles its promise, so \<open>authenticate\<close> neither
  rejects nor returns, and no caller of it answers anything. The next stage is not called.
\<close>

theorem unknown_email_connection_failure_unanswered:
  "run_select (SelectUsersByEmail (Some ''unknown@x.com'')) example_table = [] \<and>
   observe (authenticate example_verify (admin_request\<lparr>email_header := Some ''unknown@x.com''\<rparr>)
     next_stage (fresh example_table [GetConnectionFails])) = (Pending, [], False, False) \<and>
   observe (userIsAdmin example_verify (admin_request\<lparr>email_header := Some ''unknown@x.com''\<rparr>)
     next_stage (fresh example_table [GetConnectionFails])) = (Pending, [], False, False) \<and>
   observe (userIsSelfOrAdmin example_verify
     (admin_request\<lparr>email_header := Some ''unknown@x.com''\<rparr>)
     next_stage (fresh example_table [GetConnectionFails])) = (Pending, [], False, False) \<and>
   observe (create_user_route example_verify
     (admin_request\<lparr>email_header := Some ''unknown@x.com''\<rparr>)
     next_stage (fresh example_table [GetConnectionFails])) = (Pending, [], False, False)"
  by (simp add: observe_def create_user_route_def run_defs example_defs obs_defs step_defs)

text \<open>
  Claim C5. When the presented token and the stored \<open>accessToken\<close> both verify but
  their decoded values differ, \<open>authenticate\<close> rejects and the next stage is not
  called.
\<close>

theorem token_mismatch_rejected:
  assumes "access_token_header req = Some t" and "email_header req = Some e"
    and "V t ''oranges'' = Some v1"
    and "fst (query (SelectUsersByEmail (Some e)) (fresh tbl p)) = Resolved (row # rest)"
    and "accessToken row = Some t'" and "V t' ''oranges'' = Some v2"
    and "v1 \<noteq> v2"
  shows "(\<exists>err. fst (authenticate V req next_stage (fresh tbl p)) = Rejected err) \<and>
         \<not> next_invoked (snd (authenticate V req next_stage (fresh tbl p)))"
proof (cases rule: authenticate_cases [of V req "fresh tbl p"])
  case (Accept rows s1)
  have "\<not> strict_equal v1 v2" using assms(7) strict_equal_eq by blast
  moreover have "rows = row # rest" using Accept(2) assms(2,4) by simp
  ultimately show ?thesis using Accept(5) assms by (auto simp: verify_stored_def)
next
  case (Reject err s1 evs)
  then show ?thesis by (auto simp: next_invoked_def fresh_def)
next
  case (Hang s1)
  then show ?thesis using assms(2,4) by simp
qed

theorem token_mismatch_rejected_witness:
  "access_token_header (admin_request\<lparr>access_token_header := Some ''tokB''\<rparr>) = Some ''tokB'' \<and>
   email_header (admin_request\<lparr>access_token_header := Some ''tokB''\<rparr>) = Some ''admin@example.com'' \<and>
   example_verify ''tokB'' ''oranges'' = Some (PayloadString ''67890'') \<and>
   fst (query (SelectUsersByEmail (Some ''admin@example.com'')) (fresh example_table [])) =
     Resolved (admin_row # []) \<and>
   accessToken admin_row = Some ''tokA'' \<and>
   example_verify ''tokA'' ''oranges'' = Some (PayloadString ''12345'') \<and>
   PayloadString ''67890'' \<noteq> PayloadString ''12345'' \<and>
   (\<exists>err. fst (authenticate example_verify (admin_request\<lparr>access_token_header := Some ''tokB''\<rparr>)
      next_stage (fresh example_table [])) = Rejected err) \<and>
   \<not> next_invoked (snd (authenticate example_verify
      (admin_request\<lparr>access_token_header := Some ''tokB''\<rparr>) next_stage (fresh example_table [])))"
proof -
  have h1: "access_token_header (admin_request\<lparr>access_token_header := Some ''tokB''\<rparr>) = Some ''tokB''"
    and h2: "email_header (admin_request\<lparr>access_token_header := Some ''tokB''\<rparr>) = Some ''admin@example.com''"
    by (simp_all add: admin_request_def)
  have h3: "example_verify ''tokB'' ''oranges'' = Some (PayloadString ''67890'')"
    and h6: "example_verify ''tokA'' ''oranges'' = Some (PayloadString ''12345'')"
    by (simp_all add: example_verify_def)
  have h4: "fst (query (SelectUsersByEmail (Some ''admin@example.com'')) (fresh example_table [])) =
     Resolved (admin_row # [])"
    by (simp add: query_def fresh_def example_table_def admin_row_def john_row_def)
  have h5: "accessToken admin_row = Some ''tokA''" by (simp add: admin_row_def)
  have h7: "PayloadString ''67890'' \<noteq> PayloadString ''12345''" by simp
  show ?thesis
    using token_mismatch_rejected [where V = example_verify, OF h1 h2 h3 h4 h5 h6 h7] h1 h2 h3 h4 h5 h6 h7 by blast
qed

text \<open>
  Claim C6. Two requests that fail authentication, for whichever of the four reasons,
  are answered alike by each guard: one 500, no call of the next stage. The differing
  errors only reach \<open>console.error\<close>. A run of \<open>userIsAdmin\<close> that answers 403 is
  answered differently from every such failure.
\<close>

theorem authentication_failures_indistinguishable:
  assumes "failure_reason V req1 (fresh tbl1 p1) = Some r1"
    and "failure_reason V req2 (fresh tbl2 p2) = Some r2"
  shows "observe (userIsAdmin V req1 next_stage (fresh tbl1 p1)) =
           observe (userIsAdmin V req2 next_stage (fresh tbl2 p2)) \<and>
         observe (userIsSelfOrAdmin V req1 next_stage (fresh tbl1 p1)) =
           observe (userIsSelfOrAdmin V req2 next_stage (fresh tbl2 p2)) \<and>
         responses (snd (userIsAdmin V req1 next_stage (fresh tbl1 p1))) = [500] \<and>
         responses (snd (userIsSelfOrAdmin V req1 next_stage (fresh tbl1 p1))) = [500] \<and>
         (403 \<in> set (responses (snd (userIsAdmin V req3 next_stage (fresh tbl3 p3)))) \<longrightarrow>
            responses (snd (userIsAdmin V req3 next_stage (fresh tbl3 p3))) \<noteq>
            responses (snd (userIsAdmin V req1 next_stage (fresh tbl1 p1))))"
  using failure_rejected [OF assms(1)] failure_rejected [OF assms(2)]
  by (auto simp: observe_def)

theorem authentication_failures_indistinguishable_witness:
  "failure_reason example_verify (admin_request\<lparr>access_token_header := None\<rparr>)
     (fresh example_table []) = Some MissingCredentials \<and>
   failure_reason example_verify (admin_request\<lparr>email_header := Some ''unknown@x.com''\<rparr>)
     (fresh example_table []) = Some UnknownPrincipal \<and>
   observe (userIsAdmin example_verify (admin_request\<lparr>access_token_header := None\<rparr>) next_stage
     (fresh example_table [])) =
   observe (userIsAdmin example_verify (admin_request\<lparr>email_header := Some ''unknown@x.com''\<rparr>)
     next_stage (fresh example_table [])) \<and>
   responses (snd (userIsAdmin example_verify (admin_request\<lparr>access_token_header := None\<rparr>)
     next_stage (fresh example_table []))) = [500] \<and>
   403 \<in> set (responses (snd (userIsAdmin example_verify john_request next_stage
     (fresh example_table [])))) \<and>
   responses (snd (userIsAdmin example_verify john_request next_stage (fresh example_table []))) \<noteq>
   responses (snd (userIsAdmin example_verify (admin_request\<lparr>access_token_header := None\<rparr>)
     next_stage (fresh example_table [])))"
proof -
  have h1: "failure_reason example_verify (admin_request\<lparr>access_token_header := None\<rparr>)
     (fresh example_table []) = Some MissingCredentials"
    by (simp add: failure_reason_def falsy_def)
  have h2: "failure_reason example_verify (admin_request\<lparr>email_header := Some ''unknown@x.com''\<rparr>)
     (fresh example_table []) = Some UnknownPrincipal"
    by (simp add: failure_reason_def run_defs example_defs step_defs)
  have h3: "403 \<in> set (responses (snd (userIsAdmin example_verify john_request next_stage
     (fresh example_table []))))"
    by (simp add: run_defs example_defs obs_defs step_defs)
  show ?thesis
    using authentication_failures_indistinguishable [OF h1 h2, where ?req3.0 = john_request
        and ?tbl3.0 = example_table and ?p3.0 = "[]"] h1 h2 h3
    by blast
qed

text \<open>
  Claim C7 says that every fault of the persistence layer during a lookup ends in a 500
  answer. The source does so only when the statement of \<open>authenticate\<close> fails. When the
  pool cannot hand out a connection, \<open>query\<close> logs the error and never settles its
  promise, so the guard stays pending and nothing is answered. When the statement of the
  callback of \<open>userIsAdmin\<close> fails, the rejection has no handler and nothing is answered
  either.
\<close>

theorem persistence_fault_left_unanswered:
  "observe (userIsAdmin example_verify admin_request next_stage
     (fresh example_table [GetConnectionFails])) = (Pending, [], False, False) \<and>
   observe (userIsSelfOrAdmin example_verify admin_request next_stage
     (fresh example_table [GetConnectionFails])) = (Pending, [], False, False) \<and>
   observe (userIsAdmin example_verify admin_request next_stage
     (fresh example_table [Served, QueryFails])) = (Resolved (), [], False, True)"
  by (simp add: observe_def run_defs example_defs obs_defs step_defs)

text \<open>
  Claim C8 says that \<open>authenticate\<close> performs exactly one lookup in every evaluation.
  A request whose presented token does not verify is rejected before any lookup.
\<close>

theorem authenticate_exactly_one_lookup_counterexample:
  "lookups (snd (authenticate example_verify (admin_request\<lparr>access_token_header := Some ''bad''\<rparr>)
     next_stage (fresh example_table []))) \<noteq> 1"
  by (simp add: run_defs example_defs obs_defs step_defs)

text \<open>
  Claim C8, amended. While no other request writes to the table, each of the three guards
  leaves the table as it found it, and a second evaluation of the same request on the table
  that the first one left, with the persistence layer behaving as before, is observed
  exactly as the first. \<open>authenticate\<close> sends exactly one statement in every evaluation
  that gets as far as the lookup (both headers present, the presented token verifies)
  and is handed a connection, whether it then accepts or rejects; in every other
  evaluation it sends none. The only statement it can send is a \<open>SELECT\<close>.
\<close>

theorem guards_read_only_and_repeatable:
  assumes "store_unchanging p"
  shows "users (snd (authenticate V req next_stage (fresh tbl p))) = tbl \<and>
         users (snd (userIsAdmin V req next_stage (fresh tbl p))) = tbl \<and>
         users (snd (userIsSelfOrAdmin V req next_stage (fresh tbl p))) = tbl \<and>
         observe (authenticate V req next_stage
           (fresh (users (snd (authenticate V req next_stage (fresh tbl p)))) p)) =
           observe (authenticate V req next_stage (fresh tbl p)) \<and>
         observe (userIsAdmin V req next_stage
           (fresh (users (snd (userIsAdmin V req next_stage (fresh tbl p)))) p)) =
           observe (userIsAdmin V req next_stage (fresh tbl p)) \<and>
         observe (userIsSelfOrAdmin V req next_stage
           (fresh (users (snd (userIsSelfOrAdmin V req next_stage (fresh tbl p)))) p)) =
           observe (userIsSelfOrAdmin V req next_stage (fresh tbl p)) \<and>
         lookups (snd (authenticate V req next_stage (fresh tbl p))) =
           (if reaches_lookup V req \<and> connection_obtained p then 1 else 0)"
  using guards_keep_users [OF assms, of V req tbl] authenticate_lookups_exact [of V req tbl p]
  by simp

theorem guards_read_only_and_repeatable_witness:
  "store_unchanging [Served, Served] \<and>
   reaches_lookup example_verify (admin_request\<lparr>access_token_header := Some ''tokB''\<rparr>) \<and>
   connection_obtained [Served, Served] \<and>
   \<not> authenticated example_verify (admin_request\<lparr>access_token_header := Some ''tokB''\<rparr>)
     example_table [Served, Served] \<and>
   lookups (snd (authenticate example_verify (admin_request\<lparr>access_token_header := Some ''tokB''\<rparr>)
     next_stage (fresh example_table [Served, Served]))) = 1 \<and>
   users (snd (userIsAdmin example_verify admin_request next_stage
     (fresh example_table [Served, Served]))) = example_table \<and>
   observe (userIsAdmin example_verify admin_request next_stage
     (fresh (users (snd (userIsAdmin example_verify admin_request next_stage
        (fresh example_table [Served, Served])))) [Served, Served])) =
   observe (userIsAdmin example_verify admin_request next_stage
     (fresh example_table [Served, Served])) \<and>
   lookups (snd (authenticate example_verify admin_request next_stage
     (fresh example_table [Served, Served]))) = 1 \<and>
   \<not> reaches_lookup example_verify (admin_request\<lparr>access_token_header := Some ''bad''\<rparr>) \<and>
   lookups (snd (authenticate example_verify (admin_request\<lparr>access_token_header := Some ''bad''\<rparr>)
     next_stage (fresh example_table [Served, Served]))) = 0"
proof -
  have h1: "store_unchanging [Served, Served]" by (simp add: store_unchanging_def)
  have h2: "reaches_lookup example_verify (admin_request\<lparr>access_token_header := Some ''tokB''\<rparr>)"
    and h3: "reaches_lookup example_verify admin_request"
    and h4: "\<not> reaches_lookup example_verify (admin_request\<lparr>access_token_header := Some ''bad''\<rparr>)"
    by (simp_all add: reaches_lookup_def example_defs)
  have h5: "\<not> authenticated example_verify (admin_request\<lparr>access_token_header := Some ''tokB''\<rparr>)
     example_table [Served, Served]"
    by (simp add: authenticated_def run_defs example_defs obs_defs step_defs)
  show ?thesis
    using guards_read_only_and_repeatable [OF h1, of example_verify admin_request example_table]
      guards_read_only_and_repeatable [OF h1, of example_verify
        "admin_request\<lparr>access_token_header := Some ''tokB''\<rparr>" example_table]
      guards_read_only_and_repeatable [OF h1, of example_verify
        "admin_request\<lparr>access_token_header := Some ''bad''\<rparr>" example_table]
      h1 h2 h3 h4 h5
    by simp
qed

text \<open>
  Claim C9 says that the single-lookup variant is observed like \<open>userIsAdmin\<close> for every
  request while the store does not change. With an unchanged store, let the statement of
  the second lookup fail: \<open>userIsAdmin\<close> answers nothing and leaves a rejection without a
  handler, while the variant has no second lookup and calls the next stage.
\<close>

theorem single_lookup_differs_counterexample:
  "store_unchanging [Served, QueryFails] \<and>
   observe (userIsAdmin_single_lookup example_verify admin_request next_stage
     (fresh example_table [Served, QueryFails])) \<noteq>
   observe (userIsAdmin example_verify admin_request next_stage
     (fresh example_table [Served, QueryFails]))"
  by (simp add: store_unchanging_def observe_def userIsAdmin_single_lookup_def
      authenticate_shared_def authenticate_try_shared_def role_check_shared_def
      run_defs example_defs obs_defs step_defs)

text \<open>
  Claim C9, amended. Whenever the second lookup of \<open>userIsAdmin\<close> is served from the table
  as the first lookup left it, the single-lookup variant and \<open>userIsAdmin\<close> are observed
  alike: the same end of the promise, the same answers, the same call of the next stage.
\<close>

theorem single_lookup_equivalent_when_second_served:
  assumes "second_lookup_served p"
  shows "observe (userIsAdmin_single_lookup V req next_stage (fresh tbl p)) =
         observe (userIsAdmin V req next_stage (fresh tbl p))"
proof (cases rule: authenticate_cases [of V req "fresh tbl p"])
  case (Accept rows s1)
  let ?sel = "SelectUsersByEmail (email_header req)"
  have tr: "trace s1 = [Queried ?sel]" using Accept(3) by (simp add: fresh_def)
  have "fst (query ?sel s1) = Resolved rows"
    using query_twice [OF Accept(2)] assms by (simp add: fresh_def)
  then have two: "observe (userIsAdmin V req next_stage (fresh tbl p)) =
      (if 0 < length rows \<and> role (rows ! 0) = ''ADMIN''
       then (Resolved (), [], True, False) else (Resolved (), [403], False, False))"
    using userIsAdmin_accept_observed [OF Accept(1) tr] by simp
  have "userIsAdmin_single_lookup V req next_stage (fresh tbl p) =
      (Resolved (), call_unawaited (role_check_shared next_stage rows) s1)"
    by (simp add: userIsAdmin_single_lookup_def authenticate_shared_via_source Accept(1,2))
  then have "observe (userIsAdmin_single_lookup V req next_stage (fresh tbl p)) =
      (if 0 < length rows \<and> role (rows ! 0) = ''ADMIN''
       then (Resolved (), [], True, False) else (Resolved (), [403], False, False))"
    using tr
    by (simp add: role_check_shared_def call_unawaited_def next_stage_def observe_def
        obs_defs step_defs)
  then show ?thesis using two by simp
next
  case (Reject err s1 evs)
  then show ?thesis
    by (simp add: userIsAdmin_single_lookup_def userIsAdmin_def authenticate_shared_via_source)
next
  case (Hang s1)
  then show ?thesis
    by (simp add: userIsAdmin_single_lookup_def userIsAdmin_def authenticate_shared_via_source)
qed

theorem single_lookup_equivalent_when_second_served_witness:
  "second_lookup_served [Served, Served] \<and>
   observe (userIsAdmin_single_lookup example_verify admin_request next_stage
     (fresh example_table [Served, Served])) =
   observe (userIsAdmin example_verify admin_request next_stage
     (fresh example_table [Served, Served])) \<and>
   observe (userIsAdmin example_verify admin_request next_stage
     (fresh example_table [Served, Served])) = (Resolved (), [], True, False)"
proof -
  have h: "second_lookup_served [Served, Served]" by simp
  have "observe (userIsAdmin example_verify admin_request next_stage
     (fresh example_table [Served, Served])) = (Resolved (), [], True, False)"
    by (simp add: observe_def run_defs example_defs obs_defs step_defs)
  then show ?thesis
    using single_lookup_equivalent_when_second_served [OF h, of example_verify admin_request
        example_table] h
    by simp
qed

text \<open>
  Claim C10. When authentication succeeded and the lookup of \<open>userIsAdmin\<close> itself returns
  no row, the guard answers 403: it does not call the next stage and nothing is thrown,
  since the length of the result is tested before \<open>result[0].role\<close> is read.
\<close>

theorem userIsAdmin_zero_rows_forbidden:
  assumes "authenticated V req tbl p" and "role_lookup req tbl p = Resolved []"
  shows "observe (userIsAdmin V req next_stage (fresh tbl p)) = (Resolved (), [403], False, False)"
proof -
  obtain rows s1 where
    acc: "\<And>next. authenticate V req next (fresh tbl p) = (Resolved (), call_unawaited next s1)"
    and q: "query (SelectUsersByEmail (email_header req)) (fresh tbl p) = (Resolved rows, s1)"
    and tr: "trace s1 = [Queried (SelectUsersByEmail (email_header req))]"
    and ne: "rows \<noteq> []"
    using authenticated_accept [OF assms(1)] by blast
  have rl: "role_lookup req tbl p = fst (query (SelectUsersByEmail (email_header req)) s1)"
    by (simp add: role_lookup_def q)
  show ?thesis
    using userIsAdmin_accept_observed [OF acc tr, folded rl] assms(2) by simp
qed

theorem userIsAdmin_zero_rows_forbidden_witness:
  "authenticated example_verify admin_request example_table [Served, ServedAfter []] \<and>
   role_lookup admin_request example_table [Served, ServedAfter []] = Resolved [] \<and>
   observe (userIsAdmin example_verify admin_request next_stage
     (fresh example_table [Served, ServedAfter []])) = (Resolved (), [403], False, False)"
proof -
  have h1: "authenticated example_verify admin_request example_table [Served, ServedAfter []]"
    by (simp add: authenticated_def run_defs example_defs obs_defs step_defs)
  have h2: "role_lookup admin_request example_table [Served, ServedAfter []] = Resolved []"
    by (simp add: role_lookup_def run_defs example_defs step_defs)
  show ?thesis
    using userIsAdmin_zero_rows_forbidden [OF h1 h2] h1 h2 by simp
qed

end
